theory Spec2Isabelle
  imports Main
begin

section \<open>The posts resource of the blog server\<close>

text \<open>
  A shallow embedding of \<^verbatim>\<open>server/models/Post.js\<close> (the Mongoose schema and its
  \<^verbatim>\<open>pre('save')\<close> hook) and of \<^verbatim>\<open>server/routes/posts.js\<close> (the Express handlers).

  Conventions of the model.
  \<^item> A JavaScript string is a \<open>string\<close>: a list of code units below 256.
  \<^item> An ObjectId is the 24-digit hexadecimal string that its \<^verbatim>\<open>toString()\<close> gives;
    the handlers compare ids through \<^verbatim>\<open>toString()\<close>, so equality of ids is equality of
    these strings.
  \<^item> The collection is the list of its documents in natural (insertion) order.
    \<^verbatim>\<open>findOne\<close> and \<^verbatim>\<open>findById\<close> return the first match.
  \<^item> A handler takes the collection and returns the response together with the
    collection after the request. Every \<^verbatim>\<open>res.status(..).json(..)\<close> of the source is a
    constructor of \<open>response\<close>.
  \<^item> \<^verbatim>\<open>req.user\<close> is a \<open>user option\<close> on the routes behind \<^verbatim>\<open>optionalAuth\<close> and a
    \<open>user\<close> on the routes behind \<^verbatim>\<open>auth\<close>. \<^verbatim>\<open>populate('author', ..)\<close> replaces the
    author id by the user document with that id; the model keeps the id, which is all
    the handlers read from it.
  \<^item> What the source takes from outside the repository is a parameter: the
    \<^verbatim>\<open>slugify\<close> package, the clock \<^verbatim>\<open>Date.now()\<close>, the fresh ObjectId of a new
    document and the text search of the store.
\<close>

subsection \<open>Strings\<close>

text \<open>White space as \<^verbatim>\<open>\s\<close> and \<^verbatim>\<open>String.prototype.trim\<close> see it, below code unit 256:
  TAB, LF, VT, FF, CR, SPACE and NBSP.\<close>

definition is_space :: "char \<Rightarrow> bool" where
  "is_space c = ((of_char c :: nat) \<in> {9, 10, 11, 12, 13, 32, 160})"

text \<open>\<^verbatim>\<open>s.trim()\<close>\<close>

definition trim :: "string \<Rightarrow> string" where
  "trim s = rev (dropWhile is_space (rev (dropWhile is_space s)))"

text \<open>\<^verbatim>\<open>s.toLowerCase()\<close> on code units below 256: A-Z and the Latin-1 capitals
  (0xC0-0xDE without the multiplication sign 0xD7) move up by 32.\<close>

definition lower_char :: "char \<Rightarrow> char" where
  "lower_char c =
     (let n = (of_char c :: nat)
      in if (65 \<le> n \<and> n \<le> 90) \<or> (192 \<le> n \<and> n \<le> 222 \<and> n \<noteq> 215)
         then char_of (n + 32) else c)"

definition toLowerCase :: "string \<Rightarrow> string" where
  "toLowerCase s = map lower_char s"

text \<open>\<^verbatim>\<open>s.replace(/P+/g, r)\<close> for a character class \<open>P\<close>: every maximal run of
  characters of the class becomes the one character \<open>r\<close>.\<close>

function replace_runs :: "(char \<Rightarrow> bool) \<Rightarrow> char \<Rightarrow> string \<Rightarrow> string" where
  "replace_runs P r [] = []"
| "replace_runs P r (c # cs) =
     (if P c then r # replace_runs P r (dropWhile P cs) else c # replace_runs P r cs)"
  by pat_completeness auto
termination
  by (relation "measure (\<lambda>(P, r, s). length s)")
     (auto simp: le_imp_less_Suc length_dropWhile_le)

text \<open>\<^verbatim>\<open>s.split(/\s+/)\<close>: the pieces between the maximal runs of white space. A leading
  or trailing run gives an empty first or last piece; the empty string gives one
  empty piece.\<close>

function split_ws :: "string \<Rightarrow> string list" where
  "split_ws [] = [[]]"
| "split_ws (c # cs) =
     (if is_space c then [] # split_ws (dropWhile is_space cs)
      else (case split_ws cs of
              [] \<Rightarrow> [[c]]
            | w # ws \<Rightarrow> (c # w) # ws))"
  by pat_completeness auto
termination
  by (relation "measure length") (auto simp: le_imp_less_Suc length_dropWhile_le)

text \<open>\<^verbatim>\<open>s.split(',')\<close>\<close>

fun split_comma :: "string \<Rightarrow> string list" where
  "split_comma [] = [[]]"
| "split_comma (c # cs) =
     (if c = CHR '','' then [] # split_comma cs
      else (case split_comma cs of
              [] \<Rightarrow> [[c]]
            | w # ws \<Rightarrow> (c # w) # ws))"

text \<open>The decimal digits of a number, as \<^verbatim>\<open>'-' + Date.now()\<close> prints them.\<close>

fun decimal :: "nat \<Rightarrow> string" where
  "decimal n =
     (if n < 10 then [char_of (48 + n)]
      else decimal (n div 10) @ [char_of (48 + n mod 10)])"

declare decimal.simps [simp del]

definition is_digit :: "char \<Rightarrow> bool" where
  "is_digit c = (48 \<le> (of_char c :: nat) \<and> (of_char c :: nat) \<le> 57)"

definition is_hex :: "char \<Rightarrow> bool" where
  "is_hex c =
     (let n = (of_char c :: nat)
      in (48 \<le> n \<and> n \<le> 57) \<or> (65 \<le> n \<and> n \<le> 70) \<or> (97 \<le> n \<and> n \<le> 102))"

subsection \<open>The data model\<close>

type_synonym oid = string

datatype privacy = Public | Private

datatype status = Draft | Published

record user =
  user_id :: oid
  role :: string

record post =
  post_id :: oid
  title :: string
  content :: string
  excerpt :: "string option"
  slug :: string
  tags :: "string list"
  privacy :: privacy
  author :: oid
  featured :: bool
  coverImage :: string
  readTime :: nat
  views :: nat
  likes :: "oid list"
  status :: status
  createdAt :: nat

type_synonym store = "post list"

record pagination =
  pg_page :: nat
  pg_limit :: nat
  pg_total :: nat
  pg_pages :: nat
  pg_hasNext :: bool
  pg_hasPrev :: bool

datatype response =
    ValidationFailed
  | SlugExists
  | AccessDenied
  | NotFound
  | ServerError
  | PostCreated post
  | PostUpdated post
  | PostDeleted
  | PostJson post
  | PostsJson "post list" pagination
  | LikeJson bool nat

text \<open>The HTTP status of each response. The slug collision of the create route is
  sent with status 400, as a validation failure is.\<close>

fun http_status :: "response \<Rightarrow> nat" where
  "http_status ValidationFailed = 400"
| "http_status SlugExists = 400"
| "http_status AccessDenied = 403"
| "http_status NotFound = 404"
| "http_status ServerError = 500"
| "http_status (PostCreated p) = 201"
| "http_status (PostUpdated p) = 200"
| "http_status PostDeleted = 200"
| "http_status (PostJson p) = 200"
| "http_status (PostsJson ps pg) = 200"
| "http_status (LikeJson l n) = 200"

subsection \<open>The store\<close>

definition findById :: "store \<Rightarrow> oid \<Rightarrow> post option" where
  "findById st i = find (\<lambda>p. post_id p = i) st"

definition findOne_slug :: "store \<Rightarrow> string \<Rightarrow> post option" where
  "findOne_slug st s = find (\<lambda>p. slug p = s) st"

text \<open>Writing a document back: the first document with the id is replaced.\<close>

fun replace_doc :: "store \<Rightarrow> post \<Rightarrow> store" where
  "replace_doc [] q = []"
| "replace_doc (p # ps) q =
     (if post_id p = post_id q then q # ps else p # replace_doc ps q)"

text \<open>Inserting a new document. The collection has unique indexes on \<^verbatim>\<open>_id\<close> and
  on \<^verbatim>\<open>slug\<close>: a duplicate key makes the insert throw (\<open>None\<close>).\<close>

definition insert_doc :: "store \<Rightarrow> post \<Rightarrow> store option" where
  "insert_doc st q =
     (if (\<exists>p \<in> set st. post_id p = post_id q \<or> slug p = slug q) then None
      else Some (st @ [q]))"

text \<open>\<^verbatim>\<open>validator.isMongoId\<close>: 24 hexadecimal digits.\<close>

definition isMongoId :: "string \<Rightarrow> bool" where
  "isMongoId s = (length s = 24 \<and> list_all is_hex s)"

subsection \<open>The \<^verbatim>\<open>pre('save')\<close> hook of the schema\<close>

text \<open>The slug of the hook:
  \<^verbatim>\<open>title.toLowerCase().replace(/[^a-z0-9 -]/g, '').replace(/\s+/g, '-').replace(/-+/g, '-').trim('-')\<close>.
  \<^verbatim>\<open>trim\<close> takes no argument in JavaScript, so the last step trims white space.\<close>

definition slug_char :: "char \<Rightarrow> bool" where
  "slug_char c =
     (let n = (of_char c :: nat)
      in (97 \<le> n \<and> n \<le> 122) \<or> (48 \<le> n \<and> n \<le> 57) \<or> n = 32 \<or> n = 45)"

definition title_slug :: "string \<Rightarrow> string" where
  "title_slug t =
     trim (replace_runs (\<lambda>c. c = CHR ''-'') (CHR ''-'')
            (replace_runs is_space (CHR ''-'')
              (filter slug_char (toLowerCase t))))"

text \<open>\<^verbatim>\<open>content.split(/\s+/).length\<close> and \<^verbatim>\<open>Math.ceil(wordCount / 200)\<close>\<close>

definition wordCount :: "string \<Rightarrow> nat" where
  "wordCount c = length (split_ws c)"

definition read_time :: "string \<Rightarrow> nat" where
  "read_time c = (wordCount c + 199) div 200"

text \<open>\<^verbatim>\<open>content.replace(/[#*`]/g, '').substring(0, 150).trim() + '...'\<close>\<close>

definition markup_char :: "char \<Rightarrow> bool" where
  "markup_char c = (c = CHR ''#'' \<or> c = CHR ''*'' \<or> c = CHR 0x60)"

definition make_excerpt :: "string \<Rightarrow> string" where
  "make_excerpt c = trim (take 150 (filter (\<lambda>x. \<not> markup_char x) c)) @ ''...''"

text \<open>\<^verbatim>\<open>!this.excerpt\<close>: the field is undefined or the empty string.\<close>

definition no_excerpt :: "string option \<Rightarrow> bool" where
  "no_excerpt e = (e = None \<or> e = Some [])"

text \<open>The hook, given the clock and what Mongoose tracks of the document:
  \<^verbatim>\<open>isNew\<close>, \<^verbatim>\<open>isModified('title')\<close> and \<^verbatim>\<open>isModified('content')\<close>.\<close>

definition pre_save :: "nat \<Rightarrow> bool \<Rightarrow> bool \<Rightarrow> bool \<Rightarrow> post \<Rightarrow> post" where
  "pre_save now isNew modTitle modContent p =
     (let p1 = (if modTitle
                then p\<lparr>slug := title_slug (title p) @
                                (if isNew then ''-'' @ decimal now else [])\<rparr>
                else p);
          p2 = (if modContent
                then (let q = p1\<lparr>readTime := read_time (content p1)\<rparr>
                      in if no_excerpt (excerpt q)
                         then q\<lparr>excerpt := Some (make_excerpt (content q))\<rparr>
                         else q)
                else p1)
      in p2)"

subsection \<open>POST /api/posts/:id/like\<close>

text \<open>\<^verbatim>\<open>post.likes\<close> is a Mongoose array of ObjectIds, whose \<^verbatim>\<open>includes\<close> compares
  ObjectIds by value. The document is written back with \<^verbatim>\<open>post.save()\<close>; neither the
  title nor the content is modified, so the hook changes nothing.\<close>

definition toggle_like :: "store \<Rightarrow> user \<Rightarrow> string \<Rightarrow> response \<times> store" where
  "toggle_like st u i =
     (if \<not> isMongoId i then (ValidationFailed, st)
      else case findById st i of
        None \<Rightarrow> (NotFound, st)
      | Some p \<Rightarrow>
          if privacy p = Private \<and> author p \<noteq> user_id u then (AccessDenied, st)
          else
            (let userId = user_id u;
                 isLiked = (userId \<in> set (likes p));
                 likes' = (if isLiked then filter (\<lambda>x. x \<noteq> userId) (likes p)
                           else likes p @ [userId]);
                 p' = pre_save 0 False False False (p\<lparr>likes := likes'\<rparr>)
             in (LikeJson (\<not> isLiked) (length likes'), replace_doc st p')))"

subsection \<open>Request bodies and the validators of the routes\<close>

text \<open>\<^verbatim>\<open>req.body\<close>: a field that is undefined is \<open>None\<close>.\<close>

record body =
  b_title :: "string option"
  b_content :: "string option"
  b_tags :: "string list option"
  b_privacy :: "string option"
  b_excerpt :: "string option"
  b_coverImage :: "string option"
  b_featured :: "bool option"
  b_status :: "string option"

definition valid_tag :: "string \<Rightarrow> bool" where
  "valid_tag t = (t = ''technical'' \<or> t = ''personal'')"

definition parse_privacy :: "string \<Rightarrow> privacy option" where
  "parse_privacy s =
     (if s = ''public'' then Some Public
      else if s = ''private'' then Some Private else None)"

definition parse_status :: "string \<Rightarrow> status option" where
  "parse_status s =
     (if s = ''draft'' then Some Draft
      else if s = ''published'' then Some Published else None)"

definition tags_ok :: "string list \<Rightarrow> bool" where
  "tags_ok ts = (1 \<le> length ts \<and> length ts \<le> 2 \<and> list_all valid_tag ts)"

text \<open>The validator chain of \<^verbatim>\<open>router.post('/')\<close>. It gives the sanitised (trimmed)
  title, the content, the tags and the privacy, or \<open>None\<close> when
  \<^verbatim>\<open>validationResult(req)\<close> is not empty.\<close>

definition validate_create :: "body \<Rightarrow> (string \<times> string \<times> string list \<times> privacy) option" where
  "validate_create b =
     (case b_title b of None \<Rightarrow> None | Some t \<Rightarrow>
      case b_content b of None \<Rightarrow> None | Some c \<Rightarrow>
      case b_tags b of None \<Rightarrow> None | Some ts \<Rightarrow>
      case b_privacy b of None \<Rightarrow> None | Some pv \<Rightarrow>
      case parse_privacy pv of None \<Rightarrow> None | Some v \<Rightarrow>
        if trim t \<noteq> [] \<and> length (trim t) \<le> 200 \<and> c \<noteq> [] \<and> tags_ok ts \<and>
           (case b_excerpt b of None \<Rightarrow> True | Some e \<Rightarrow> length e \<le> 300)
        then Some (trim t, c, ts, v) else None)"

text \<open>The validator chain of \<^verbatim>\<open>router.put('/:id')\<close> on the body: every field is
  optional.\<close>

definition validate_update :: "body \<Rightarrow> bool" where
  "validate_update b =
     ((case b_title b of None \<Rightarrow> True
       | Some t \<Rightarrow> 1 \<le> length (trim t) \<and> length (trim t) \<le> 200) \<and>
      (case b_content b of None \<Rightarrow> True | Some c \<Rightarrow> c \<noteq> []) \<and>
      (case b_tags b of None \<Rightarrow> True | Some ts \<Rightarrow> tags_ok ts) \<and>
      (case b_privacy b of None \<Rightarrow> True | Some pv \<Rightarrow> parse_privacy pv \<noteq> None))"

text \<open>The validators of the schema, which Mongoose runs before the \<^verbatim>\<open>pre('save')\<close>
  hook of the schema: required strings are not empty, \<^verbatim>\<open>maxlength\<close>, the tags.\<close>

definition schema_valid :: "post \<Rightarrow> bool" where
  "schema_valid p =
     (title p \<noteq> [] \<and> length (title p) \<le> 200 \<and> content p \<noteq> [] \<and>
      (case excerpt p of None \<Rightarrow> True | Some e \<Rightarrow> length e \<le> 300) \<and>
      slug p \<noteq> [] \<and> tags_ok (tags p))"

subsection \<open>POST /api/posts\<close>

text \<open>\<open>slugify\<close> stands for \<^verbatim>\<open>t => slugify(t, { lower: true, strict: true })\<close> of the
  slugify package, \<open>now\<close> for the clock and \<open>new_id\<close> for the ObjectId of the new
  document. The body's \<^verbatim>\<open>status\<close> is not among the fields the handler reads; the
  schema's defaults fill \<^verbatim>\<open>status\<close>, \<^verbatim>\<open>views\<close>, \<^verbatim>\<open>likes\<close> and
  \<^verbatim>\<open>readTime\<close>.\<close>

text \<open>\<^verbatim>\<open>new Post({ title, slug, content, tags, privacy, excerpt, coverImage, featured, author })\<close>
  with the defaults of the schema.\<close>

definition new_post ::
  "oid \<Rightarrow> nat \<Rightarrow> user \<Rightarrow> body \<Rightarrow> string \<Rightarrow> string \<Rightarrow> string \<Rightarrow> string list \<Rightarrow> privacy \<Rightarrow> post" where
  "new_post new_id now u b t sl c ts pv =
     \<lparr>post_id = new_id, title = t, content = c, excerpt = b_excerpt b, slug = sl,
      tags = ts, privacy = pv, author = user_id u,
      featured = (case b_featured b of
                    None \<Rightarrow> False
                  | Some f \<Rightarrow> f \<and> role u = ''admin''),
      coverImage = (case b_coverImage b of None \<Rightarrow> [] | Some ci \<Rightarrow> ci),
      readTime = 0, views = 0, likes = [], status = Published, createdAt = now\<rparr>"

definition create_post ::
  "(string \<Rightarrow> string) \<Rightarrow> nat \<Rightarrow> oid \<Rightarrow> store \<Rightarrow> user \<Rightarrow> body \<Rightarrow> response \<times> store" where
  "create_post slugify now new_id st u b =
     (case validate_create b of
        None \<Rightarrow> (ValidationFailed, st)
      | Some (t, c, ts, pv) \<Rightarrow>
          (case findOne_slug st (slugify t) of
             Some existingPost \<Rightarrow> (SlugExists, st)
           | None \<Rightarrow>
               (let post0 = new_post new_id now u b t (slugify t) c ts pv
                in if \<not> schema_valid post0 then (ServerError, st)
                   else (let post1 = pre_save now True True True post0
                         in case insert_doc st post1 of
                              None \<Rightarrow> (ServerError, st)
                            | Some st' \<Rightarrow> (PostCreated post1, st')))))"

subsection \<open>PUT /api/posts/:id\<close>

text \<open>The handler copies the allow-listed fields of the body into
  \<^verbatim>\<open>updateFields\<close> and hands them to \<^verbatim>\<open>Post.findByIdAndUpdate\<close> with
  \<^verbatim>\<open>runValidators\<close>. That is a query: it sets the given fields in the store and
  runs the schema's validators on them (an excerpt over 300 characters or a status
  outside the enumeration throws), and Mongoose runs no \<^verbatim>\<open>pre('save')\<close> hook
  for it. \<open>set_field\<close> sets one field of the document when the body defines it.\<close>

definition set_field :: "'a option \<Rightarrow> ('a \<Rightarrow> post \<Rightarrow> post) \<Rightarrow> post \<Rightarrow> post" where
  "set_field x f p = (case x of None \<Rightarrow> p | Some v \<Rightarrow> f v p)"

definition apply_update :: "body \<Rightarrow> bool \<Rightarrow> post \<Rightarrow> post option" where
  "apply_update b admin p =
     (let p1 = set_field (b_title b) (\<lambda>t q. q\<lparr>title := trim t\<rparr>) p;
          p2 = set_field (b_content b) (\<lambda>c q. q\<lparr>content := c\<rparr>) p1;
          p3 = set_field (b_tags b) (\<lambda>ts q. q\<lparr>tags := ts\<rparr>) p2;
          p4 = set_field (b_privacy b)
                 (\<lambda>pv q. case parse_privacy pv of
                            None \<Rightarrow> q | Some v \<Rightarrow> q\<lparr>privacy := v\<rparr>) p3;
          p5 = set_field (b_excerpt b) (\<lambda>e q. q\<lparr>excerpt := Some e\<rparr>) p4;
          p6 = set_field (b_coverImage b) (\<lambda>ci q. q\<lparr>coverImage := ci\<rparr>) p5;
          p7 = set_field (b_featured b)
                 (\<lambda>f q. if admin then q\<lparr>featured := f\<rparr> else q) p6
      in if (case b_excerpt b of None \<Rightarrow> False | Some e \<Rightarrow> 300 < length e) then None
         else (case b_status b of
                 None \<Rightarrow> Some p7
               | Some s \<Rightarrow> (case parse_status s of
                              None \<Rightarrow> None
                            | Some v \<Rightarrow> Some (p7\<lparr>status := v\<rparr>))))"

definition update_post :: "store \<Rightarrow> user \<Rightarrow> string \<Rightarrow> body \<Rightarrow> response \<times> store" where
  "update_post st u i b =
     (if \<not> (isMongoId i \<and> validate_update b) then (ValidationFailed, st)
      else case findById st i of
        None \<Rightarrow> (NotFound, st)
      | Some p \<Rightarrow>
          if author p \<noteq> user_id u then (AccessDenied, st)
          else (case apply_update b (role u = ''admin'') p of
                  None \<Rightarrow> (ServerError, st)
                | Some p' \<Rightarrow> (PostUpdated p', replace_doc st p')))"

subsection \<open>DELETE /api/posts/:id\<close>

fun remove_doc :: "store \<Rightarrow> oid \<Rightarrow> store" where
  "remove_doc [] i = []"
| "remove_doc (p # ps) i = (if post_id p = i then ps else p # remove_doc ps i)"

definition delete_post :: "store \<Rightarrow> user \<Rightarrow> string \<Rightarrow> response \<times> store" where
  "delete_post st u i =
     (if \<not> isMongoId i then (ValidationFailed, st)
      else case findById st i of
        None \<Rightarrow> (NotFound, st)
      | Some p \<Rightarrow>
          if author p \<noteq> user_id u \<and> role u \<noteq> ''admin'' then (AccessDenied, st)
          else (PostDeleted, remove_doc st i))"

subsection \<open>GET /api/posts/:slug\<close>

text \<open>\<^verbatim>\<open>Post.findByIdAndUpdate(post._id, { $inc: { views: 1 } })\<close>\<close>

fun inc_views :: "store \<Rightarrow> oid \<Rightarrow> store" where
  "inc_views [] i = []"
| "inc_views (p # ps) i =
     (if post_id p = i then p\<lparr>views := views p + 1\<rparr> # ps else p # inc_views ps i)"

text \<open>\<^verbatim>\<open>!req.user || req.user._id.toString() !== post.author._id.toString()\<close>\<close>

definition not_author :: "user option \<Rightarrow> post \<Rightarrow> bool" where
  "not_author u p = (case u of None \<Rightarrow> True | Some v \<Rightarrow> user_id v \<noteq> author p)"

definition get_by_slug :: "store \<Rightarrow> user option \<Rightarrow> string \<Rightarrow> response \<times> store" where
  "get_by_slug st u s =
     (if s = [] then (ValidationFailed, st)
      else case findOne_slug st s of
        None \<Rightarrow> (NotFound, st)
      | Some p \<Rightarrow>
          if privacy p = Private \<and> not_author u p then (AccessDenied, st)
          else if privacy p = Public \<and> not_author u p
          then (PostJson (p\<lparr>views := views p + 1\<rparr>), inc_views st (post_id p))
          else (PostJson p, st))"

subsection \<open>GET /api/posts\<close>

text \<open>\<^verbatim>\<open>req.query\<close>: each parameter is a string or undefined.\<close>

record query =
  q_tags :: "string option"
  q_page :: "string option"
  q_limit :: "string option"
  q_search :: "string option"

text \<open>\<^verbatim>\<open>validator.isInt\<close> accepts an optional sign followed by digits, and
  \<^verbatim>\<open>parseInt\<close> reads the same strings as the number they write.\<close>

definition digits_value :: "string \<Rightarrow> nat" where
  "digits_value s = foldl (\<lambda>a c. 10 * a + ((of_char c :: nat) - 48)) 0 s"

definition parse_int :: "string \<Rightarrow> int option" where
  "parse_int s =
     (case s of
        [] \<Rightarrow> None
      | c # cs \<Rightarrow>
          if c = CHR ''+'' \<or> c = CHR ''-''
          then (if cs \<noteq> [] \<and> list_all is_digit cs
                then Some (if c = CHR ''-'' then - int (digits_value cs)
                           else int (digits_value cs))
                else None)
          else (if list_all is_digit s then Some (int (digits_value s)) else None))"

text \<open>\<^verbatim>\<open>isIn(['technical', 'personal', 'technical,personal'])\<close>\<close>

definition tags_param_ok :: "string \<Rightarrow> bool" where
  "tags_param_ok t =
     (t = ''technical'' \<or> t = ''personal'' \<or> t = ''technical,personal'')"

definition validate_list :: "query \<Rightarrow> bool" where
  "validate_list q =
     ((case q_tags q of None \<Rightarrow> True | Some t \<Rightarrow> tags_param_ok t) \<and>
      (case q_page q of None \<Rightarrow> True
       | Some s \<Rightarrow> (case parse_int s of None \<Rightarrow> False | Some n \<Rightarrow> 1 \<le> n)) \<and>
      (case q_limit q of None \<Rightarrow> True
       | Some s \<Rightarrow> (case parse_int s of None \<Rightarrow> False | Some n \<Rightarrow> 1 \<le> n \<and> n \<le> 50)))"

text \<open>\<^verbatim>\<open>parseInt(x) || d\<close>\<close>

definition int_or :: "string option \<Rightarrow> nat \<Rightarrow> nat" where
  "int_or x d =
     (case x of
        None \<Rightarrow> d
      | Some s \<Rightarrow> (case parse_int s of
                     None \<Rightarrow> d
                   | Some n \<Rightarrow> if n = 0 then d else nat n))"

text \<open>The privacy part of the filter: \<^verbatim>\<open>privacy: 'public'\<close> for an anonymous caller,
  the \<^verbatim>\<open>$or\<close> of public and the caller's own private posts otherwise.\<close>

definition visible :: "user option \<Rightarrow> post \<Rightarrow> bool" where
  "visible u p =
     (case u of
        None \<Rightarrow> privacy p = Public
      | Some v \<Rightarrow> privacy p = Public \<or> (privacy p = Private \<and> author p = user_id v))"

text \<open>The whole filter. \<open>text_search\<close> stands for the store's \<^verbatim>\<open>$text\<close> operator; an
  empty \<^verbatim>\<open>tags\<close> or \<^verbatim>\<open>search\<close> string is falsy and adds no condition.\<close>

definition list_filter ::
  "(string \<Rightarrow> post \<Rightarrow> bool) \<Rightarrow> user option \<Rightarrow> query \<Rightarrow> post \<Rightarrow> bool" where
  "list_filter text_search u q p =
     (status p = Published \<and> visible u p \<and>
      (case q_tags q of
         None \<Rightarrow> True
       | Some t \<Rightarrow> t = [] \<or> (\<exists>x \<in> set (split_comma t). x \<in> set (tags p))) \<and>
      (case q_search q of
         None \<Rightarrow> True
       | Some s \<Rightarrow> s = [] \<or> text_search s p))"

text \<open>\<^verbatim>\<open>.select('-content')\<close>: the list view carries no content.\<close>

definition select_no_content :: "post \<Rightarrow> post" where
  "select_no_content p = p\<lparr>content := []\<rparr>"

text \<open>\<^verbatim>\<open>.sort({ createdAt: -1 })\<close>: newest first; the store leaves the order of
  documents with equal \<^verbatim>\<open>createdAt\<close> open, the model keeps their natural order.\<close>

definition sort_newest :: "post list \<Rightarrow> post list" where
  "sort_newest ps = sort_key (\<lambda>p. - int (createdAt p)) ps"

definition list_posts ::
  "(string \<Rightarrow> post \<Rightarrow> bool) \<Rightarrow> store \<Rightarrow> user option \<Rightarrow> query \<Rightarrow> response" where
  "list_posts text_search st u q =
     (if \<not> validate_list q then ValidationFailed
      else
        (let page = int_or (q_page q) 1;
             limit = int_or (q_limit q) 10;
             skip = (page - 1) * limit;
             found = filter (list_filter text_search u q) st;
             posts = map select_no_content (take limit (drop skip (sort_newest found)));
             total = length found
         in PostsJson posts
              \<lparr>pg_page = page, pg_limit = limit, pg_total = total,
               pg_pages = (total + limit - 1) div limit,
               pg_hasNext = (page * limit < total),
               pg_hasPrev = (1 < page)\<rparr>))"

subsection \<open>Example data\<close>

text \<open>A stand-in for the slugify package, which is not part of the repository, on
  titles made of ASCII letters, digits and blanks: there
  \<^verbatim>\<open>slugify(t, { lower: true, strict: true })\<close> trims the title, joins its words
  with \<^verbatim>\<open>-\<close> and lower-cases them. It only instantiates the parameter of
  \<open>create_post\<close> in the examples below.\<close>

definition slugify_plain :: "string \<Rightarrow> string" where
  "slugify_plain t =
     toLowerCase (replace_runs is_space (CHR ''-'')
       (trim (filter (\<lambda>c. is_space c \<or> is_digit c \<or>
                (let n = (of_char c :: nat)
                 in (65 \<le> n \<and> n \<le> 90) \<or> (97 \<le> n \<and> n \<le> 122))) t)))"

definition alice :: user where
  "alice = \<lparr>user_id = ''aaaaaaaaaaaaaaaaaaaaaaaa'', role = ''user''\<rparr>"

definition bob :: user where
  "bob = \<lparr>user_id = ''bbbbbbbbbbbbbbbbbbbbbbbb'', role = ''user''\<rparr>"

definition hello_id :: oid where
  "hello_id = ''111111111111111111111111''"

definition hello_body :: body where
  "hello_body =
     \<lparr>b_title = Some ''Hello World'', b_content = Some ''Some *bold* text'',
      b_tags = Some [''technical''], b_privacy = Some ''public'', b_excerpt = None,
      b_coverImage = None, b_featured = None, b_status = None\<rparr>"

text \<open>The document that alice's create request with \<open>hello_body\<close> stores at time
  1000 (lemma \<open>create_hello\<close> below).\<close>

definition hello_post :: post where
  "hello_post =
     \<lparr>post_id = ''111111111111111111111111'', title = ''Hello World'',
      content = ''Some *bold* text'', excerpt = Some ''Some bold text...'',
      slug = ''hello-world-1000'', tags = [''technical''], privacy = Public,
      author = ''aaaaaaaaaaaaaaaaaaaaaaaa'', featured = False, coverImage = [],
      readTime = 1, views = 0, likes = [], status = Published, createdAt = 1000\<rparr>"

definition secret_post :: post where
  "secret_post =
     hello_post\<lparr>post_id := ''222222222222222222222222'', title := ''Secret'',
       slug := ''secret-2000'', privacy := Private, createdAt := 2000\<rparr>"

text \<open>The ids of the drafts of the collection.\<close>

definition draft_ids :: "store \<Rightarrow> oid set" where
  "draft_ids st = set (map post_id (filter (\<lambda>p. status p = Draft) st))"

text \<open>A content of 1000 words and a create request with it; a content of 201 words and
  an update request with it; an update request that sets the status to draft; the
  document of a second create request with \<open>hello_body\<close>, at time 2000.\<close>

definition thousand_words :: string where
  "thousand_words = concat (replicate 999 ''word '') @ ''word''"

definition thousand_body :: body where
  "thousand_body = hello_body\<lparr>b_content := Some thousand_words\<rparr>"

definition long_words :: string where
  "long_words = concat (replicate 200 ''word '') @ ''word''"

definition content_body :: body where
  "content_body =
     \<lparr>b_title = None, b_content = Some long_words, b_tags = None, b_privacy = None,
      b_excerpt = None, b_coverImage = None, b_featured = None, b_status = None\<rparr>"

definition draft_body :: body where
  "draft_body =
     \<lparr>b_title = None, b_content = None, b_tags = None, b_privacy = None,
      b_excerpt = None, b_coverImage = None, b_featured = None, b_status = Some ''draft''\<rparr>"

definition again_id :: oid where
  "again_id = ''333333333333333333333333''"

definition hello_again :: post where
  "hello_again =
     hello_post\<lparr>post_id := ''333333333333333333333333'', slug := ''hello-world-2000'',
       createdAt := 2000\<rparr>"

text \<open>A public post of bob, a store without text search, the query with no
  parameter, a collection of three posts, and the query for its second page of one post with
  the pagination of that page.\<close>

definition world_post :: post where
  "world_post =
     hello_post\<lparr>post_id := ''444444444444444444444444'', title := ''World'',
       slug := ''world-3000'', tags := [''personal''],
       author := ''bbbbbbbbbbbbbbbbbbbbbbbb'', createdAt := 3000\<rparr>"

definition no_search :: "string \<Rightarrow> post \<Rightarrow> bool" where
  "no_search s p = False"

definition plain_query :: query where
  "plain_query = \<lparr>q_tags = None, q_page = None, q_limit = None, q_search = None\<rparr>"




text \<open>The word count in the words of the specification: the number of words of the
  content, a word being a maximal run of characters that are not white space.
  \<open>word_starts\<close> counts the places where a word begins; its flag says whether the
  character before was part of a word.\<close>

fun word_starts :: "bool \<Rightarrow> string \<Rightarrow> nat" where
  "word_starts in_word [] = 0"
| "word_starts in_word (c # cs) =
     (if is_space c then word_starts False cs
      else (if in_word then 0 else 1) + word_starts True cs)"

definition number_of_words :: "string \<Rightarrow> nat" where
  "number_of_words c = word_starts False c"

text \<open>A content of 200 words, each followed by a blank, and a create request with
  it.\<close>

definition trailing_words :: string where
  "trailing_words = concat (replicate 200 ''word '')"

definition trailing_body :: body where
  "trailing_body = hello_body\<lparr>b_content := Some trailing_words\<rparr>"

section \<open>Properties\<close>

subsection \<open>The store\<close>

lemma create_hello:
  "create_post slugify_plain 1000 hello_id [] alice hello_body =
     (PostCreated hello_post, [hello_post])"
  by code_simp

lemma findById_id: "findById st i = Some p \<Longrightarrow> post_id p = i"
  by (auto simp: findById_def find_Some_iff)

lemma findById_replace_doc:
  "findById st i = Some p \<Longrightarrow> post_id q = i \<Longrightarrow> findById (replace_doc st q) i = Some q"
  by (induction st) (auto simp: findById_def split: if_splits)

lemma replace_doc_twice:
  "post_id q = post_id r \<Longrightarrow> replace_doc (replace_doc st q) r = replace_doc st r"
  by (induction st) auto

lemma findOne_slug_mem: "findOne_slug st s = Some p \<Longrightarrow> p \<in> set st \<and> slug p = s"
  by (auto simp: findOne_slug_def find_Some_iff)

lemma findById_distinct:
  "distinct (map post_id st) \<Longrightarrow> p \<in> set st \<Longrightarrow> findById st (post_id p) = Some p"
  by (induction st) (auto simp: findById_def)

lemma findById_inc_views:
  "findById st i = Some p \<Longrightarrow> findById (inc_views st i) i = Some (p\<lparr>views := views p + 1\<rparr>)"
  by (induction st) (auto simp: findById_def split: if_splits)

lemma findById_inc_views_other:
  "j \<noteq> i \<Longrightarrow> findById (inc_views st i) j = findById st j"
  by (induction st) (auto simp: findById_def)

lemma pre_save_unmodified: "pre_save now isNew False False p = p"
  by (simp add: pre_save_def)

lemma not_author_iff:
  "not_author u p = (\<forall>v. u = Some v \<longrightarrow> user_id v \<noteq> author p)"
  by (cases u) (auto simp: not_author_def)

subsection \<open>Lists of likes\<close>

lemma count_list_filter_neq: "count_list (filter (\<lambda>x. x \<noteq> a) xs) a = 0"
  by (induction xs) auto

lemma count_list_absent: "a \<notin> set xs \<Longrightarrow> count_list xs a = 0"
  by (induction xs) auto

lemma filter_neq_absent: "a \<notin> set xs \<Longrightarrow> filter (\<lambda>x. x \<noteq> a) xs = xs"
  by (induction xs) auto

lemma length_filter_neq_once:
  "count_list xs a = 1 \<Longrightarrow> Suc (length (filter (\<lambda>x. x \<noteq> a) xs)) = length xs"
  by (induction xs) (auto simp: filter_neq_absent count_list_0_iff split: if_splits)

text \<open>What the like route does for a caller who may like the post.\<close>

lemma toggle_like_ok:
  assumes "isMongoId i" "findById st i = Some p"
    "\<not> (privacy p = Private \<and> author p \<noteq> user_id u)"
  shows "toggle_like st u i =
     (let ls = (if user_id u \<in> set (likes p) then filter (\<lambda>x. x \<noteq> user_id u) (likes p)
                else likes p @ [user_id u])
      in (LikeJson (user_id u \<notin> set (likes p)) (length ls), replace_doc st (p\<lparr>likes := ls\<rparr>)))"
  using assms by (auto simp: toggle_like_def Let_def pre_save_unmodified)

subsection \<open>Reading a post by its slug\<close>

text \<open>
  Claim C3. A get-by-slug request that finds a post: when the post is public and the
  caller is anonymous or a user other than the author, the stored \<open>views\<close> of that
  post goes up by exactly 1 and no other document changes; when the caller is the
  author or the post is private, the store is unchanged. The ids of the collection are
  distinct (the store's unique index on \<^verbatim>\<open>_id\<close>).
\<close>

theorem get_by_slug_views:
  assumes "distinct (map post_id st)" "s \<noteq> []" "findOne_slug st s = Some p"
  shows "\<exists>r st'. get_by_slug st u s = (r, st') \<and>
           (privacy p = Public \<and> (\<forall>v. u = Some v \<longrightarrow> user_id v \<noteq> author p) \<longrightarrow>
              findById st (post_id p) = Some p \<and>
              findById st' (post_id p) = Some (p\<lparr>views := views p + 1\<rparr>) \<and>
              (\<forall>j. j \<noteq> post_id p \<longrightarrow> findById st' j = findById st j)) \<and>
           (privacy p = Private \<or> (\<exists>v. u = Some v \<and> user_id v = author p) \<longrightarrow> st' = st)"
proof -
  have mem: "p \<in> set st" using findOne_slug_mem [OF assms(3)] by simp
  have cur: "findById st (post_id p) = Some p"
    using findById_distinct [OF assms(1) mem] .
  note na = not_author_iff [of u p]
  show ?thesis
  proof (cases "privacy p = Public \<and> not_author u p")
    case True
    then have "get_by_slug st u s =
        (PostJson (p\<lparr>views := views p + 1\<rparr>), inc_views st (post_id p))"
      using assms(2,3) by (simp add: get_by_slug_def)
    then show ?thesis
      using True cur findById_inc_views [OF cur] findById_inc_views_other na
      by auto
  next
    case False
    then have "snd (get_by_slug st u s) = st"
      using assms(2,3) by (auto simp: get_by_slug_def)
    then show ?thesis
      using False na by (cases "get_by_slug st u s") (cases "privacy p", auto)
  qed
qed

theorem get_by_slug_views_witness:
  "distinct (map post_id [hello_post, secret_post]) \<and> ''hello-world-1000'' \<noteq> [] \<and>
   findOne_slug [hello_post, secret_post] ''hello-world-1000'' = Some hello_post \<and>
   (\<exists>r st'. get_by_slug [hello_post, secret_post] (Some bob) ''hello-world-1000'' = (r, st') \<and>
      findById st' (post_id hello_post) = Some (hello_post\<lparr>views := views hello_post + 1\<rparr>)) \<and>
   (\<exists>r. get_by_slug [hello_post, secret_post] (Some alice) ''hello-world-1000'' =
      (r, [hello_post, secret_post]))"
proof -
  have h1: "distinct (map post_id [hello_post, secret_post])" by code_simp
  have h2: "''hello-world-1000'' \<noteq> []" by simp
  have h3: "findOne_slug [hello_post, secret_post] ''hello-world-1000'' = Some hello_post"
    by code_simp
  have pub: "privacy hello_post = Public" by code_simp
  have other: "\<forall>v. Some bob = Some v \<longrightarrow> user_id v \<noteq> author hello_post"
    by (simp add: bob_def hello_post_def)
  have own: "\<exists>v. Some alice = Some v \<and> user_id v = author hello_post"
    by (simp add: alice_def hello_post_def)
  show ?thesis
    using h1 h3 pub other own
      get_by_slug_views [OF h1 h2 h3, of "Some bob"]
      get_by_slug_views [OF h1 h2 h3, of "Some alice"]
    by auto
qed

text \<open>
  Claim C7. A get-by-slug request that finds a private post is answered with access
  denied (status 403) and leaves the store alone when the caller is anonymous or a
  user other than the author; a request of the author is answered with the post
  (status 200).
\<close>

theorem get_by_slug_private:
  assumes "s \<noteq> []" "findOne_slug st s = Some p"
  shows "(privacy p = Private \<and> (\<forall>v. u = Some v \<longrightarrow> user_id v \<noteq> author p) \<longrightarrow>
            get_by_slug st u s = (AccessDenied, st) \<and>
            http_status (fst (get_by_slug st u s)) = 403) \<and>
         ((\<exists>v. u = Some v \<and> user_id v = author p) \<longrightarrow>
            get_by_slug st u s = (PostJson p, st) \<and>
            http_status (fst (get_by_slug st u s)) = 200)"
  using assms not_author_iff [of u p] by (auto simp: get_by_slug_def)

theorem get_by_slug_private_witness:
  "''secret-2000'' \<noteq> [] \<and>
   findOne_slug [hello_post, secret_post] ''secret-2000'' = Some secret_post \<and>
   get_by_slug [hello_post, secret_post] None ''secret-2000'' =
     (AccessDenied, [hello_post, secret_post]) \<and>
   get_by_slug [hello_post, secret_post] (Some bob) ''secret-2000'' =
     (AccessDenied, [hello_post, secret_post]) \<and>
   get_by_slug [hello_post, secret_post] (Some alice) ''secret-2000'' =
     (PostJson secret_post, [hello_post, secret_post])"
proof -
  have h1: "''secret-2000'' \<noteq> []" by simp
  have h2: "findOne_slug [hello_post, secret_post] ''secret-2000'' = Some secret_post"
    by code_simp
  have priv: "privacy secret_post = Private" by code_simp
  have anon: "\<forall>v. (None :: user option) = Some v \<longrightarrow> user_id v \<noteq> author secret_post"
    by simp
  have other: "\<forall>v. Some bob = Some v \<longrightarrow> user_id v \<noteq> author secret_post"
    by (simp add: bob_def secret_post_def hello_post_def)
  have own: "\<exists>v. Some alice = Some v \<and> user_id v = author secret_post"
    by (simp add: alice_def secret_post_def hello_post_def)
  show ?thesis
    using h2 priv anon other own
      get_by_slug_private [OF h1 h2, of None]
      get_by_slug_private [OF h1 h2, of "Some bob"]
      get_by_slug_private [OF h1 h2, of "Some alice"]
    by simp
qed

subsection \<open>Toggling a like\<close>

text \<open>
  Claim C9. For a post that exists and a caller who may like it (the post is public or
  the caller is its author), one toggle-like request completes and afterwards the
  caller's id occurs at most once in the stored \<open>likes\<close>, however often it occurred
  before: when the caller was in the list every occurrence is removed, otherwise one
  entry is appended.
\<close>

theorem toggle_like_at_most_once:
  assumes "isMongoId i" "findById st i = Some p"
    "\<not> (privacy p = Private \<and> author p \<noteq> user_id u)"
  shows "\<exists>l n st' p'. toggle_like st u i = (LikeJson l n, st') \<and>
           findById st' i = Some p' \<and>
           count_list (likes p') (user_id u) \<le> 1 \<and>
           likes p' = (if user_id u \<in> set (likes p)
                       then filter (\<lambda>x. x \<noteq> user_id u) (likes p)
                       else likes p @ [user_id u])"
proof -
  define ls where "ls = (if user_id u \<in> set (likes p)
                       then filter (\<lambda>x. x \<noteq> user_id u) (likes p)
                       else likes p @ [user_id u])"
  have run: "toggle_like st u i =
      (LikeJson (user_id u \<notin> set (likes p)) (length ls), replace_doc st (p\<lparr>likes := ls\<rparr>))"
    using toggle_like_ok [OF assms] by (simp add: ls_def Let_def)
  have id: "post_id (p\<lparr>likes := ls\<rparr>) = i"
    using findById_id [OF assms(2)] by simp
  have found: "findById (replace_doc st (p\<lparr>likes := ls\<rparr>)) i = Some (p\<lparr>likes := ls\<rparr>)"
    using findById_replace_doc [OF assms(2) id] .
  have once: "count_list ls (user_id u) \<le> 1"
    by (simp add: ls_def count_list_filter_neq count_list_absent)
  show ?thesis
    using run found once by (auto simp: ls_def)
qed

theorem toggle_like_at_most_once_witness:
  "isMongoId hello_id \<and>
   findById [hello_post\<lparr>likes := [user_id bob, user_id alice, user_id bob]\<rparr>] hello_id =
     Some (hello_post\<lparr>likes := [user_id bob, user_id alice, user_id bob]\<rparr>) \<and>
   (\<exists>l n st' p'.
      toggle_like [hello_post\<lparr>likes := [user_id bob, user_id alice, user_id bob]\<rparr>] bob hello_id =
        (LikeJson l n, st') \<and>
      findById st' hello_id = Some p' \<and> count_list (likes p') (user_id bob) \<le> 1 \<and>
      likes p' = [user_id alice])"
proof -
  let ?p = "hello_post\<lparr>likes := [user_id bob, user_id alice, user_id bob]\<rparr>"
  have h1: "isMongoId hello_id" by code_simp
  have h2: "findById [?p] hello_id = Some ?p" by code_simp
  have h3: "\<not> (privacy ?p = Private \<and> author ?p \<noteq> user_id bob)" by code_simp
  have ne: "user_id bob \<noteq> user_id alice" by code_simp
  show ?thesis
    using h1 h2 ne toggle_like_at_most_once [OF h1 h2 h3] by auto
qed

text \<open>How many entries the filter of the unlike branch removes.\<close>

lemma length_filter_neq_count:
  "length (filter (\<lambda>x. x \<noteq> a) xs) + count_list xs a = length xs"
  by (induction xs) auto

text \<open>
  Claim C4, as the code has it. For a post that exists and a caller who may like it,
  two toggle-like requests of that caller in sequence both complete, and afterwards the
  stored post has its original \<open>likes\<close> membership, whatever the list held before;
  every other field of the post is as before. The list itself is the original one when
  the caller was not in it, and otherwise the original one without the caller's
  entries, followed by one entry of the caller: the number of likes, which the second
  response reports, is the original number when the caller occurred at most once, and
  is lower by the caller's further occurrences otherwise.
\<close>

theorem toggle_like_twice:
  assumes "isMongoId i" "findById st i = Some p"
    "\<not> (privacy p = Private \<and> author p \<noteq> user_id u)"
  shows "\<exists>l1 n1 st1 l2 n2 st2 p2.
           toggle_like st u i = (LikeJson l1 n1, st1) \<and>
           toggle_like st1 u i = (LikeJson l2 n2, st2) \<and>
           findById st2 i = Some p2 \<and>
           set (likes p2) = set (likes p) \<and>
           likes p2 = (if user_id u \<in> set (likes p)
                       then filter (\<lambda>x. x \<noteq> user_id u) (likes p) @ [user_id u]
                       else likes p) \<and>
           length (likes p2) + count_list (likes p) (user_id u) =
             length (likes p) + (if user_id u \<in> set (likes p) then 1 else 0) \<and>
           (count_list (likes p) (user_id u) \<le> 1 \<longrightarrow> length (likes p2) = length (likes p)) \<and>
           n2 = length (likes p2) \<and> l2 = (\<not> l1) \<and>
           p2\<lparr>likes := likes p\<rparr> = p \<and>
           st2 = replace_doc st p2"
proof -
  let ?a = "user_id u"
  define ls where "ls = (if ?a \<in> set (likes p) then filter (\<lambda>x. x \<noteq> ?a) (likes p)
                       else likes p @ [?a])"
  define p1 where "p1 = p\<lparr>likes := ls\<rparr>"
  define ls2 where "ls2 = (if ?a \<in> set ls then filter (\<lambda>x. x \<noteq> ?a) ls else ls @ [?a])"
  define p2 where "p2 = p1\<lparr>likes := ls2\<rparr>"
  have id: "post_id p = i" using findById_id [OF assms(2)] .
  have run1: "toggle_like st u i = (LikeJson (?a \<notin> set (likes p)) (length ls), replace_doc st p1)"
    using toggle_like_ok [OF assms(1-3)] by (simp add: ls_def p1_def Let_def)
  have found1: "findById (replace_doc st p1) i = Some p1"
    using findById_replace_doc [OF assms(2)] id by (simp add: p1_def)
  have auth1: "\<not> (privacy p1 = Private \<and> author p1 \<noteq> ?a)"
    using assms(3) by (simp add: p1_def)
  have run2: "toggle_like (replace_doc st p1) u i =
      (LikeJson (?a \<notin> set ls) (length ls2), replace_doc (replace_doc st p1) p2)"
    using toggle_like_ok [OF assms(1) found1 auth1] by (simp add: ls2_def p2_def p1_def Let_def)
  have st2: "replace_doc (replace_doc st p1) p2 = replace_doc st p2"
    by (rule replace_doc_twice) (simp add: p1_def p2_def)
  have found2: "findById (replace_doc st p2) i = Some p2"
    using findById_replace_doc [OF assms(2)] id by (simp add: p1_def p2_def)
  have val2: "ls2 = (if ?a \<in> set (likes p) then filter (\<lambda>x. x \<noteq> ?a) (likes p) @ [?a]
                     else likes p)"
    by (simp add: ls2_def ls_def filter_neq_absent)
  have set2: "set ls2 = set (likes p)"
    unfolding val2 by auto
  have len2: "length ls2 + count_list (likes p) ?a =
      length (likes p) + (if ?a \<in> set (likes p) then 1 else 0)"
    unfolding val2
    using length_filter_neq_count [of ?a "likes p"]
    by (simp add: count_list_absent)
  have once: "count_list (likes p) ?a \<le> 1 \<longrightarrow> length ls2 = length (likes p)"
  proof
    assume le: "count_list (likes p) ?a \<le> 1"
    show "length ls2 = length (likes p)"
    proof (cases "?a \<in> set (likes p)")
      case True
      then have "count_list (likes p) ?a = 1"
        using le by (metis count_list_0_iff le_neq_implies_less less_one)
      then show ?thesis using len2 True by simp
    next
      case False
      then show ?thesis by (simp add: val2)
    qed
  qed
  have flip: "(?a \<notin> set ls) = (\<not> (?a \<notin> set (likes p)))"
    by (auto simp: ls_def)
  have same: "p2\<lparr>likes := likes p\<rparr> = p"
    by (simp add: p2_def p1_def)
  have l2: "likes p2 = ls2" by (simp add: p2_def)
  show ?thesis
    apply (rule exI [of _ "?a \<notin> set (likes p)"], rule exI [of _ "length ls"],
        rule exI [of _ "replace_doc st p1"], rule exI [of _ "?a \<notin> set ls"],
        rule exI [of _ "length ls2"], rule exI [of _ "replace_doc st p2"],
        rule exI [of _ p2])
    using run1 run2 st2 found2 set2 len2 once flip same val2 l2
    by simp
qed

theorem toggle_like_twice_witness:
  "isMongoId hello_id \<and>
   findById [hello_post\<lparr>likes := [user_id bob, user_id alice]\<rparr>] hello_id =
     Some (hello_post\<lparr>likes := [user_id bob, user_id alice]\<rparr>) \<and>
   count_list (likes (hello_post\<lparr>likes := [user_id bob, user_id alice]\<rparr>)) (user_id bob) \<le> 1 \<and>
   (\<exists>l1 n1 st1 l2 n2 st2 p2.
      toggle_like [hello_post\<lparr>likes := [user_id bob, user_id alice]\<rparr>] bob hello_id =
        (LikeJson l1 n1, st1) \<and>
      toggle_like st1 bob hello_id = (LikeJson l2 n2, st2) \<and>
      findById st2 hello_id = Some p2 \<and>
      set (likes p2) = {user_id bob, user_id alice} \<and> length (likes p2) = 2 \<and> n2 = 2)"
proof -
  let ?p = "hello_post\<lparr>likes := [user_id bob, user_id alice]\<rparr>"
  have h1: "isMongoId hello_id" by code_simp
  have h2: "findById [?p] hello_id = Some ?p" by code_simp
  have h3: "\<not> (privacy ?p = Private \<and> author ?p \<noteq> user_id bob)" by code_simp
  have h4: "count_list (likes ?p) (user_id bob) \<le> 1" by code_simp
  obtain l1 n1 st1 l2 n2 st2 p2 where r:
    "toggle_like [?p] bob hello_id = (LikeJson l1 n1, st1)"
    "toggle_like st1 bob hello_id = (LikeJson l2 n2, st2)"
    "findById st2 hello_id = Some p2"
    "set (likes p2) = set (likes ?p)"
    "count_list (likes ?p) (user_id bob) \<le> 1 \<longrightarrow> length (likes p2) = length (likes ?p)"
    "n2 = length (likes p2)"
    using toggle_like_twice [OF h1 h2 h3] by blast
  have "set (likes p2) = {user_id bob, user_id alice}" "length (likes p2) = 2"
    using r(4,5) h4 by simp_all
  then show ?thesis using h1 h2 h4 r(1,2,3,6) by auto
qed

text \<open>From a list that holds the caller twice, the first toggle removes both entries
  and the second adds one: the post ends with one like where it had two.\<close>

theorem toggle_like_twice_counterexample:
  "toggle_like [hello_post\<lparr>likes := [user_id bob, user_id bob]\<rparr>] bob hello_id =
     (LikeJson False 0, [hello_post\<lparr>likes := []\<rparr>]) \<and>
   toggle_like [hello_post\<lparr>likes := []\<rparr>] bob hello_id =
     (LikeJson True 1, [hello_post\<lparr>likes := [user_id bob]\<rparr>]) \<and>
   length (likes (hello_post\<lparr>likes := [user_id bob, user_id bob]\<rparr>)) = 2 \<and>
   length (likes (hello_post\<lparr>likes := [user_id bob]\<rparr>)) = 1"
  by code_simp

subsection \<open>Creating a post\<close>

lemma create_post_created:
  assumes "create_post sl now nid st u b = (PostCreated p, st')"
  shows "\<exists>t c ts pv. validate_create b = Some (t, c, ts, pv) \<and>
           findOne_slug st (sl t) = None \<and>
           p = pre_save now True True True (new_post nid now u b t (sl t) c ts pv) \<and>
           st' = st @ [p]"
  using assms
  by (auto simp: create_post_def Let_def insert_doc_def
      split: option.splits prod.splits if_splits)

lemma validate_create_content:
  "validate_create b = Some (t, c, ts, pv) \<Longrightarrow> b_content b = Some c"
  by (auto simp: validate_create_def split: option.splits if_splits)

lemma pre_save_new:
  "pre_save now True True True p0 =
     p0\<lparr>slug := title_slug (title p0) @ ''-'' @ decimal now,
        readTime := read_time (content p0),
        excerpt := (if no_excerpt (excerpt p0) then Some (make_excerpt (content p0))
                    else excerpt p0)\<rparr>"
  by (simp add: pre_save_def Let_def)

lemma length_trim_le: "length (trim s) \<le> length s"
proof -
  have "length (trim s) \<le> length (dropWhile is_space s)"
    unfolding trim_def using length_dropWhile_le [of is_space "rev (dropWhile is_space s)"]
    by simp
  also have "\<dots> \<le> length s" by (rule length_dropWhile_le)
  finally show ?thesis .
qed

lemma length_make_excerpt: "length (make_excerpt c) \<le> 153"
proof -
  have "length (trim (take 150 (filter (\<lambda>x. \<not> markup_char x) c))) \<le> 150"
    using length_trim_le [of "take 150 (filter (\<lambda>x. \<not> markup_char x) c)"] by simp
  then show ?thesis by (simp add: make_excerpt_def)
qed

lemma split_ws_not_Nil: "split_ws s \<noteq> []"
  by (induction s rule: split_ws.induct) (auto split: list.splits)

lemma length_split_ws_nonspace:
  "\<not> is_space c \<Longrightarrow> length (split_ws (c # cs)) = length (split_ws cs)"
  using split_ws_not_Nil [of cs] by (auto split: list.splits)

lemma length_split_ws_space:
  "is_space c \<Longrightarrow> length (split_ws (c # cs)) = Suc (length (split_ws (dropWhile is_space cs)))"
  by simp

lemma wordCount_words:
  "wordCount (concat (replicate n ''word '') @ ''word'') = Suc n"
proof (induction n)
  case 0
  show ?case by (simp add: wordCount_def is_space_def)
next
  case (Suc n)
  let ?rest = "concat (replicate n ''word '') @ ''word''"
  have hd: "dropWhile is_space ?rest = ?rest"
    by (cases n) (simp_all add: is_space_def)
  have "length (split_ws (''word '' @ ?rest)) = Suc (length (split_ws ?rest))"
    using hd by (simp add: is_space_def split: list.splits)
  then show ?case using Suc by (simp add: wordCount_def)
qed

lemma wordCount_thousand: "wordCount thousand_words = 1000"
  using wordCount_words [of 999] by (simp add: thousand_words_def)

lemma thousand_nonempty: "thousand_words \<noteq> []"
  by (simp add: thousand_words_def)

lemma create_thousand:
  "create_post slugify_plain 1000 hello_id [] alice thousand_body =
     (PostCreated (pre_save 1000 True True True
        (new_post hello_id 1000 alice thousand_body ''Hello World'' ''hello-world''
           thousand_words [''technical''] Public)),
      [pre_save 1000 True True True
        (new_post hello_id 1000 alice thousand_body ''Hello World'' ''hello-world''
           thousand_words [''technical''] Public)])"
proof -
  have sl: "slugify_plain ''Hello World'' = ''hello-world''" by code_simp
  have tr: "trim ''Hello World'' = ''Hello World''" by code_simp
  have v: "validate_create thousand_body =
      Some (''Hello World'', thousand_words, [''technical''], Public)"
    using thousand_nonempty
    by (simp add: validate_create_def thousand_body_def hello_body_def tr
        parse_privacy_def tags_ok_def valid_tag_def)
  have sv: "schema_valid (new_post hello_id 1000 alice thousand_body ''Hello World''
      ''hello-world'' thousand_words [''technical''] Public)"
    using thousand_nonempty
    by (simp add: schema_valid_def new_post_def thousand_body_def hello_body_def
        tags_ok_def valid_tag_def)
  show ?thesis
    by (simp add: create_post_def v sl sv findOne_slug_def insert_doc_def Let_def)
qed

text \<open>What \<open>wordCount\<close> counts: no piece of the split holds white space, and the
  number of pieces is the number of non-empty pieces, the words, plus one for white
  space at the start of the content and one for white space at its end.\<close>

lemma split_ws_no_space: "w \<in> set (split_ws s) \<Longrightarrow> c \<in> set w \<Longrightarrow> \<not> is_space c"
proof (induction s arbitrary: w rule: split_ws.induct)
  case 1
  then show ?case by simp
next
  case (2 d ds)
  show ?case
  proof (cases "is_space d")
    case True
    then show ?thesis using 2 by auto
  next
    case False
    obtain v vs where sp: "split_ws ds = v # vs"
      using split_ws_not_Nil [of ds] by (cases "split_ws ds") auto
    then have "w = d # v \<or> w \<in> set vs" using 2(3) False by simp
    then show ?thesis
      using False 2(2) [OF False, of v] 2(2) [OF False, of w] sp 2(4) by auto
  qed
qed

lemma hd_split_ws_empty:
  "(hd (split_ws s) = []) = (s = [] \<or> is_space (hd s))"
  using split_ws_not_Nil [of "tl s"]
  by (cases s) (auto split: list.splits)

lemma last_dropWhile: "dropWhile P xs \<noteq> [] \<Longrightarrow> last (dropWhile P xs) = last xs"
  by (induction xs) (auto split: if_splits)

lemma wordCount_words_of:
  "wordCount s = length (filter (\<lambda>w. w \<noteq> []) (split_ws s)) +
     (if s = [] \<or> is_space (hd s) then 1 else 0) +
     (if s \<noteq> [] \<and> is_space (last s) then 1 else 0)"
  unfolding wordCount_def
proof (induction s rule: split_ws.induct)
  case 1
  show ?case by simp
next
  case (2 c cs)
  show ?case
  proof (cases "is_space c")
    case True
    let ?d = "dropWhile is_space cs"
    have lead: "(?d = [] \<or> is_space (hd ?d)) = (?d = [])"
      using hd_dropWhile [of is_space cs] by auto
    have trail: "is_space (last (c # cs)) = (?d = [] \<or> is_space (last ?d))"
    proof (cases "?d = []")
      case True
      then have "\<forall>x \<in> set cs. is_space x" by (simp add: dropWhile_eq_Nil_conv)
      then show ?thesis using True \<open>is_space c\<close> by (cases "cs = []") auto
    next
      case False
      then have "cs \<noteq> []" by auto
      then show ?thesis using False last_dropWhile [OF False] by auto
    qed
    have step: "split_ws (c # cs) = [] # split_ws ?d"
      using True by simp
    show ?thesis
    proof (cases "?d = []")
      case d: True
      have "split_ws (c # cs) = [[], []]" using step d by simp
      moreover have "is_space (last (c # cs))" using trail d by blast
      ultimately show ?thesis using True by simp
    next
      case d: False
      have l: "\<not> (?d = [] \<or> is_space (hd ?d))" using lead d by blast
      have t: "is_space (last (c # cs)) = is_space (last ?d)" using trail d by blast
      have "length (split_ws ?d) = length (filter (\<lambda>w. w \<noteq> []) (split_ws ?d)) +
          (if is_space (last ?d) then 1 else 0)"
        using 2(1) [OF True] l d by simp
      then show ?thesis
        using True t by (simp only: step) simp
    qed
  next
    case False
    obtain v vs where sp: "split_ws cs = v # vs"
      using split_ws_not_Nil [of cs] by (cases "split_ws cs") auto
    have v: "(v = []) = (cs = [] \<or> is_space (hd cs))"
      using hd_split_ws_empty [of cs] sp by simp
    show ?thesis
      using False 2(2) [OF False] sp v by (cases "cs = []") auto
  qed
qed

text \<open>What the hook derives for a create request that stores a post and supplies no
  excerpt (the field is absent or empty): the stored \<open>readTime\<close> is \<open>wordCount\<close>
  of the content divided by 200 and rounded up, and the stored \<open>excerpt\<close> is the
  content without the characters \<^verbatim>\<open>#\<close>, \<^verbatim>\<open>*\<close> and the backquote, cut to 150
  characters, trimmed, with \<^verbatim>\<open>...\<close> appended: at most 153 characters.\<close>

lemma create_post_derived:
  assumes "create_post slugify now new_id st u b = (PostCreated p, st')"
    and "b_excerpt b = None \<or> b_excerpt b = Some []"
  shows "\<exists>c e. b_content b = Some c \<and> content p = c \<and> p \<in> set st' \<and>
           wordCount c = length (split_ws c) \<and>
           wordCount c \<le> 200 * readTime p \<and> 200 * readTime p < wordCount c + 200 \<and>
           (wordCount c = 1000 \<longrightarrow> readTime p = 5) \<and>
           excerpt p = Some e \<and>
           e = trim (take 150 (filter (\<lambda>x. x \<noteq> CHR ''#'' \<and> x \<noteq> CHR ''*'' \<and> x \<noteq> CHR 0x60) c)) @ ''...'' \<and>
           length e \<le> 153"
proof -
  obtain t c ts pv where v: "validate_create b = Some (t, c, ts, pv)"
    and p: "p = pre_save now True True True (new_post new_id now u b t (slugify t) c ts pv)"
    and st': "st' = st @ [p]"
    using create_post_created [OF assms(1)] by blast
  define p0 where "p0 = new_post new_id now u b t (slugify t) c ts pv"
  have c: "content p0 = c" and e: "excerpt p0 = b_excerpt b"
    by (simp_all add: p0_def new_post_def)
  note p = p [folded p0_def]
  have ne: "no_excerpt (excerpt p0)" using assms(2) e by (simp add: no_excerpt_def)
  have rt: "readTime p = read_time c" and co: "content p = c"
    and ex: "excerpt p = Some (make_excerpt c)"
    using p c ne by (simp_all add: pre_save_new)
  have mk: "make_excerpt c =
      trim (take 150 (filter (\<lambda>x. x \<noteq> CHR ''#'' \<and> x \<noteq> CHR ''*'' \<and> x \<noteq> CHR 0x60) c)) @ ''...''"
    by (simp add: make_excerpt_def markup_char_def)
  have len: "length (make_excerpt c) \<le> 153" by (rule length_make_excerpt)
  have ceil: "wordCount c \<le> 200 * readTime p" "200 * readTime p < wordCount c + 200"
    unfolding rt read_time_def by arith+
  have k: "wordCount c = 1000 \<Longrightarrow> readTime p = 5"
    unfolding rt read_time_def by simp
  show ?thesis
    using validate_create_content [OF v] co st' ceil k ex mk len
    by (auto simp: wordCount_def)
qed

lemma create_post_derived_example:
  "create_post slugify_plain 1000 hello_id [] alice thousand_body =
     (PostCreated (pre_save 1000 True True True
        (new_post hello_id 1000 alice thousand_body ''Hello World'' ''hello-world''
           thousand_words [''technical''] Public)),
      [pre_save 1000 True True True
        (new_post hello_id 1000 alice thousand_body ''Hello World'' ''hello-world''
           thousand_words [''technical''] Public)]) \<and>
   b_excerpt thousand_body = None \<and>
   wordCount thousand_words = 1000 \<and>
   readTime (pre_save 1000 True True True
        (new_post hello_id 1000 alice thousand_body ''Hello World'' ''hello-world''
           thousand_words [''technical''] Public)) = 5 \<and>
   (\<exists>e. excerpt (pre_save 1000 True True True
        (new_post hello_id 1000 alice thousand_body ''Hello World'' ''hello-world''
           thousand_words [''technical''] Public)) = Some e \<and> length e \<le> 153)"
proof -
  have h2: "b_excerpt thousand_body = None \<or> b_excerpt thousand_body = Some []"
    by (simp add: thousand_body_def hello_body_def)
  have c: "b_content thousand_body = Some thousand_words"
    by (simp add: thousand_body_def)
  show ?thesis
    using create_thousand h2 c wordCount_thousand
      create_post_derived [OF create_thousand h2]
    by (auto simp: thousand_body_def hello_body_def)
qed

subsection \<open>The read time and the number of words\<close>

text \<open>The number of words is the number of non-empty pieces of the split, so
  \<open>wordCount\<close> is the number of words plus one for white space at the start of the
  content and one for white space at its end.\<close>

lemma word_starts_dropWhile:
  "word_starts False (dropWhile is_space cs) = word_starts False cs"
  by (induction cs) auto

lemma word_starts_split_ws:
  "word_starts False s = length (filter (\<lambda>w. w \<noteq> []) (split_ws s)) \<and>
   word_starts True s = length (filter (\<lambda>w. w \<noteq> []) (tl (split_ws s)))"
proof (induction s rule: split_ws.induct)
  case 1
  show ?case by simp
next
  case (2 c cs)
  show ?case
  proof (cases "is_space c")
    case True
    then show ?thesis using 2(1) [OF True] by (simp add: word_starts_dropWhile)
  next
    case False
    obtain v vs where sp: "split_ws cs = v # vs"
      using split_ws_not_Nil [of cs] by (cases "split_ws cs") auto
    show ?thesis using False 2(2) [OF False] sp by simp
  qed
qed

lemma number_of_words_pieces:
  "number_of_words s = length (filter (\<lambda>w. w \<noteq> []) (split_ws s))"
  by (simp add: number_of_words_def word_starts_split_ws)

lemma wordCount_number_of_words:
  "wordCount s = number_of_words s +
     (if s = [] \<or> is_space (hd s) then 1 else 0) +
     (if s \<noteq> [] \<and> is_space (last s) then 1 else 0)"
  using wordCount_words_of [of s] by (simp add: number_of_words_pieces)

lemma wordCount_trailing:
  "wordCount (concat (replicate n ''word '')) = Suc n"
proof (induction n)
  case 0
  show ?case by (simp add: wordCount_def)
next
  case (Suc n)
  let ?rest = "concat (replicate n ''word '')"
  have hd: "dropWhile is_space ?rest = ?rest"
    by (cases n) (simp_all add: is_space_def)
  have "length (split_ws (''word '' @ ?rest)) = Suc (length (split_ws ?rest))"
    using hd by (simp add: is_space_def split: list.splits)
  then show ?case using Suc by (simp add: wordCount_def)
qed

lemma number_of_words_trailing:
  "number_of_words (concat (replicate n ''word '')) = n"
  unfolding number_of_words_def
  by (induction n) (simp_all add: is_space_def)

lemma trailing_nonempty: "trailing_words \<noteq> []"
  by (simp add: trailing_words_def)

lemma create_trailing:
  "create_post slugify_plain 1000 hello_id [] alice trailing_body =
     (PostCreated (pre_save 1000 True True True
        (new_post hello_id 1000 alice trailing_body ''Hello World'' ''hello-world''
           trailing_words [''technical''] Public)),
      [pre_save 1000 True True True
        (new_post hello_id 1000 alice trailing_body ''Hello World'' ''hello-world''
           trailing_words [''technical''] Public)])"
proof -
  have sl: "slugify_plain ''Hello World'' = ''hello-world''" by code_simp
  have tr: "trim ''Hello World'' = ''Hello World''" by code_simp
  have v: "validate_create trailing_body =
      Some (''Hello World'', trailing_words, [''technical''], Public)"
    using trailing_nonempty
    by (simp add: validate_create_def trailing_body_def hello_body_def tr
        parse_privacy_def tags_ok_def valid_tag_def)
  have sv: "schema_valid (new_post hello_id 1000 alice trailing_body ''Hello World''
      ''hello-world'' trailing_words [''technical''] Public)"
    using trailing_nonempty
    by (simp add: schema_valid_def new_post_def trailing_body_def hello_body_def
        tags_ok_def valid_tag_def)
  show ?thesis
    by (simp add: create_post_def v sl sv findOne_slug_def insert_doc_def Let_def)
qed

lemma last_trailing: "last (concat (replicate (Suc n) ''word '')) = CHR '' ''"
proof -
  have "replicate (Suc n) ''word '' = replicate n ''word '' @ [''word '']"
    by (simp add: replicate_append_same)
  then have "concat (replicate (Suc n) ''word '') = concat (replicate n ''word '') @ ''word ''"
    by (simp del: replicate.simps)
  then show ?thesis by (simp del: replicate.simps)
qed

text \<open>
  Claim C6. Alice's create request with a content of 200 words in which a blank follows
  every word, the last one too, and with no excerpt: the post is stored with
  \<open>readTime\<close> 2, where the word count of the content, 200, divided by 200 and
  rounded up is 1.
\<close>

theorem create_trailing_blank_readTime:
  "(\<exists>p. create_post slugify_plain 1000 hello_id [] alice trailing_body = (PostCreated p, [p]) \<and>
        content p = trailing_words \<and> readTime p = 2) \<and>
   number_of_words trailing_words = 200 \<and>
   (number_of_words trailing_words + 199) div 200 = 1 \<and>
   last trailing_words = CHR '' ''"
proof -
  have rt: "read_time trailing_words = 2"
    using wordCount_trailing [of 200] by (simp add: read_time_def trailing_words_def)
  have n: "number_of_words trailing_words = 200"
    using number_of_words_trailing [of 200] by (simp add: trailing_words_def)
  have l: "last trailing_words = CHR '' ''"
    using last_trailing [of 199] by (simp add: trailing_words_def)
  show ?thesis
    using create_trailing rt n l
    by (simp add: pre_save_new new_post_def)
qed

subsection \<open>Drafts\<close>

lemma findById_mem: "findById st i = Some p \<Longrightarrow> p \<in> set st"
  by (auto simp: findById_def find_Some_iff)

lemma draft_ids_Cons:
  "draft_ids (p # st) = (if status p = Draft then insert (post_id p) (draft_ids st) else draft_ids st)"
  by (simp add: draft_ids_def)

lemma draft_ids_Nil: "draft_ids [] = {}"
  by (simp add: draft_ids_def)

lemma draft_ids_append: "draft_ids (xs @ ys) = draft_ids xs \<union> draft_ids ys"
  by (simp add: draft_ids_def)

lemma draft_ids_inc_views: "draft_ids (inc_views st i) = draft_ids st"
  by (induction st) (simp_all add: draft_ids_Cons draft_ids_Nil)

lemma draft_ids_replace_doc:
  "draft_ids (replace_doc st q) \<subseteq> draft_ids st \<union> (if status q = Draft then {post_id q} else {})"
  by (induction st) (auto simp: draft_ids_Cons draft_ids_Nil)

lemma draft_ids_remove_doc: "draft_ids (remove_doc st i) \<subseteq> draft_ids st"
  by (induction st) (auto simp: draft_ids_Cons draft_ids_Nil)

lemma draft_ids_mem: "p \<in> set st \<Longrightarrow> status p = Draft \<Longrightarrow> post_id p \<in> draft_ids st"
  by (induction st) (auto simp: draft_ids_Cons)

lemma status_pre_save: "status (pre_save now n mt mc p) = status p"
  by (simp add: pre_save_def Let_def)

lemma create_post_result:
  "create_post sl now nid st u b = (r, st') \<Longrightarrow>
     st' = st \<or> (\<exists>p. r = PostCreated p \<and> st' = st @ [p] \<and> status p = Published)"
  by (auto simp: create_post_def Let_def insert_doc_def status_pre_save new_post_def
      split: option.splits prod.splits if_splits)

lemma draft_ids_create: "draft_ids (snd (create_post sl now nid st u b)) \<subseteq> draft_ids st"
proof (cases "create_post sl now nid st u b")
  case (Pair r st')
  from create_post_result [OF Pair] show ?thesis
    using Pair by (auto simp: draft_ids_append draft_ids_Cons draft_ids_Nil)
qed

lemma draft_ids_get_by_slug: "draft_ids (snd (get_by_slug st uo s)) \<subseteq> draft_ids st"
  by (simp add: get_by_slug_def draft_ids_inc_views split: option.splits)

lemma draft_ids_delete: "draft_ids (snd (delete_post st u i)) \<subseteq> draft_ids st"
  using draft_ids_remove_doc [of st i]
  by (simp add: delete_post_def split: option.splits)

lemma toggle_like_store:
  "snd (toggle_like st u i) = st \<or>
   (\<exists>p ls. findById st i = Some p \<and> snd (toggle_like st u i) = replace_doc st (p\<lparr>likes := ls\<rparr>))"
proof (cases "isMongoId i \<and> (\<exists>p. findById st i = Some p \<and>
    \<not> (privacy p = Private \<and> author p \<noteq> user_id u))")
  case True
  then obtain p where p: "findById st i = Some p"
    and ok: "\<not> (privacy p = Private \<and> author p \<noteq> user_id u)" and i: "isMongoId i"
    by blast
  show ?thesis
    using toggle_like_ok [OF i p ok] p by (simp add: Let_def) blast
next
  case False
  then have "snd (toggle_like st u i) = st"
    by (auto simp: toggle_like_def split: option.splits)
  then show ?thesis by simp
qed

lemma set_field_keeps:
  "(\<And>v q. g (f v q) = g q) \<Longrightarrow> g (set_field x f p) = g p"
  by (cases x) (simp_all add: set_field_def)

lemma apply_update_fixed:
  assumes "apply_update b admin p = Some p'"
  shows "post_id p' = post_id p" "readTime p' = readTime p" "slug p' = slug p"
    "status p' = (case b_status b of None \<Rightarrow> status p
                  | Some s \<Rightarrow> if s = ''draft'' then Draft else Published)"
    "excerpt p' = (case b_excerpt b of None \<Rightarrow> excerpt p | Some e \<Rightarrow> Some e)"
    "content p' = (case b_content b of None \<Rightarrow> content p | Some c \<Rightarrow> c)"
proof -
  define p1 where "p1 = set_field (b_title b) (\<lambda>t q. q\<lparr>title := trim t\<rparr>) p"
  define p2 where "p2 = set_field (b_content b) (\<lambda>c q. q\<lparr>content := c\<rparr>) p1"
  define p3 where "p3 = set_field (b_tags b) (\<lambda>ts q. q\<lparr>tags := ts\<rparr>) p2"
  define p4 where "p4 = set_field (b_privacy b)
                 (\<lambda>pv q. case parse_privacy pv of
                            None \<Rightarrow> q | Some v \<Rightarrow> q\<lparr>privacy := v\<rparr>) p3"
  define p5 where "p5 = set_field (b_excerpt b) (\<lambda>e q. q\<lparr>excerpt := Some e\<rparr>) p4"
  define p6 where "p6 = set_field (b_coverImage b) (\<lambda>ci q. q\<lparr>coverImage := ci\<rparr>) p5"
  define p7 where "p7 = set_field (b_featured b)
                 (\<lambda>f q. if admin then q\<lparr>featured := f\<rparr> else q) p6"
  note defs = p7_def p6_def p5_def p4_def p3_def p2_def p1_def
  have keep: "g p7 = g p"
    if "\<And>v q. g (q\<lparr>title := v\<rparr>) = g q" "\<And>v q. g (q\<lparr>content := v\<rparr>) = g q"
      "\<And>v q. g (q\<lparr>tags := v\<rparr>) = g q" "\<And>v q. g (q\<lparr>privacy := v\<rparr>) = g q"
      "\<And>v q. g (q\<lparr>excerpt := v\<rparr>) = g q" "\<And>v q. g (q\<lparr>coverImage := v\<rparr>) = g q"
      "\<And>v q. g (q\<lparr>featured := v\<rparr>) = g q" for g :: "post \<Rightarrow> 'b"
    unfolding defs
    by (simp add: set_field_keeps that split: option.splits)
  have fixed: "post_id p7 = post_id p" "readTime p7 = readTime p" "slug p7 = slug p"
    "status p7 = status p"
    by (rule keep; simp)+
  have c2: "content p2 = (case b_content b of None \<Rightarrow> content p | Some c \<Rightarrow> c)"
    unfolding p2_def p1_def
    by (cases "b_content b") (simp_all add: set_field_def split: option.splits)
  have c7: "content p7 = content p2"
    unfolding p7_def p6_def p5_def p4_def p3_def
    by (simp add: set_field_keeps split: option.splits)
  have e4: "excerpt p4 = excerpt p"
    unfolding p4_def p3_def p2_def p1_def
    by (simp add: set_field_keeps split: option.splits)
  have e5: "excerpt p5 = (case b_excerpt b of None \<Rightarrow> excerpt p | Some e \<Rightarrow> Some e)"
    unfolding p5_def using e4 by (cases "b_excerpt b") (simp_all add: set_field_def)
  have e7: "excerpt p7 = excerpt p5"
    unfolding p7_def p6_def by (simp add: set_field_keeps)
  have res: "p' = p7 \<and> b_status b = None \<or>
             (\<exists>s v. b_status b = Some s \<and> parse_status s = Some v \<and> p' = p7\<lparr>status := v\<rparr>)"
    using assms unfolding apply_update_def Let_def defs
    by (simp split: option.splits if_splits)
  show "post_id p' = post_id p" "readTime p' = readTime p" "slug p' = slug p"
    using res fixed by auto
  show "status p' = (case b_status b of None \<Rightarrow> status p
                  | Some s \<Rightarrow> if s = ''draft'' then Draft else Published)"
    using res fixed by (auto simp: parse_status_def split: if_splits)
  show "excerpt p' = (case b_excerpt b of None \<Rightarrow> excerpt p | Some e \<Rightarrow> Some e)"
    using res e5 e7 by auto
  show "content p' = (case b_content b of None \<Rightarrow> content p | Some c \<Rightarrow> c)"
    using res c2 c7 by auto
qed

lemma update_post_store:
  "snd (update_post st u i b) = st \<or>
   (\<exists>p p'. findById st i = Some p \<and> author p = user_id u \<and>
      apply_update b (role u = ''admin'') p = Some p' \<and>
      update_post st u i b = (PostUpdated p', replace_doc st p'))"
  by (auto simp: update_post_def split: option.splits)

lemma draft_ids_update:
  "draft_ids (snd (update_post st u i b)) \<subseteq>
     draft_ids st \<union> (if b_status b = Some ''draft'' then {i} else {})"
proof -
  consider "snd (update_post st u i b) = st"
    | p p' where "findById st i = Some p" "apply_update b (role u = ''admin'') p = Some p'"
        "update_post st u i b = (PostUpdated p', replace_doc st p')"
    using update_post_store [of st u i b] by blast
  then show ?thesis
  proof cases
    case 1
    then show ?thesis by auto
  next
    case 2
    note f = apply_update_fixed [OF 2(2)]
    have id: "post_id p = i" using findById_id [OF 2(1)] .
    have old: "status p = Draft \<Longrightarrow> i \<in> draft_ids st"
      using draft_ids_mem [OF findById_mem [OF 2(1)]] id by simp
    have "status p' = Draft \<Longrightarrow> status p = Draft \<or> b_status b = Some ''draft''"
      using f(4) by (cases "b_status b") (auto split: if_splits)
    then show ?thesis
      using 2(3) draft_ids_replace_doc [of st p'] f(1) id old
      by (auto split: if_splits)
  qed
qed

lemma draft_ids_toggle_like: "draft_ids (snd (toggle_like st u i)) \<subseteq> draft_ids st"
proof -
  consider "snd (toggle_like st u i) = st"
    | p ls where "findById st i = Some p"
        "snd (toggle_like st u i) = replace_doc st (p\<lparr>likes := ls\<rparr>)"
    using toggle_like_store [of st u i] by blast
  then show ?thesis
  proof cases
    case 1
    then show ?thesis by simp
  next
    case 2
    have "status p = Draft \<Longrightarrow> post_id p \<in> draft_ids st"
      using draft_ids_mem [OF findById_mem [OF 2(1)]] .
    then show ?thesis
      using 2(2) draft_ids_replace_doc [of st "p\<lparr>likes := ls\<rparr>"]
      by (auto split: if_splits)
  qed
qed

lemma create_post_ignores_status:
  "create_post sl now nid st u (b\<lparr>b_status := x\<rparr>) = create_post sl now nid st u b"
  by (simp add: create_post_def validate_create_def new_post_def cong: option.case_cong)

text \<open>
  Claim C10. The create route does not read the \<open>status\<close> of the body: the request
  with any status gives the same result as the request without it, and a post that is
  created has status published. A draft only comes from an update that sets the status
  to draft: creating, reading by slug, liking and deleting add no id to the drafts of
  the collection, and an update adds at most the id it updates, and only when its body
  has the status draft.
\<close>

theorem create_post_published:
  "create_post sl now nid st u (b\<lparr>b_status := x\<rparr>) = create_post sl now nid st u b \<and>
   (\<forall>p st'. create_post sl now nid st u b = (PostCreated p, st') \<longrightarrow>
      status p = Published \<and> st' = st @ [p]) \<and>
   draft_ids (snd (create_post sl now nid st u b)) \<subseteq> draft_ids st \<and>
   draft_ids (snd (get_by_slug st uo s)) \<subseteq> draft_ids st \<and>
   draft_ids (snd (toggle_like st u i)) \<subseteq> draft_ids st \<and>
   draft_ids (snd (delete_post st u i)) \<subseteq> draft_ids st \<and>
   draft_ids (snd (update_post st u i b')) \<subseteq>
     draft_ids st \<union> (if b_status b' = Some ''draft'' then {i} else {})"
proof -
  have "status p = Published \<and> st' = st @ [p]"
    if "create_post sl now nid st u b = (PostCreated p, st')" for p st'
    using create_post_created [OF that]
    by (auto simp: status_pre_save new_post_def)
  then have c: "\<forall>p st'. create_post sl now nid st u b = (PostCreated p, st') \<longrightarrow>
      status p = Published \<and> st' = st @ [p]"
    by blast
  show ?thesis
    by (intro conjI c create_post_ignores_status draft_ids_create draft_ids_get_by_slug
        draft_ids_toggle_like draft_ids_delete draft_ids_update)
qed

theorem create_post_published_witness:
  "create_post slugify_plain 1000 hello_id [] alice (hello_body\<lparr>b_status := Some ''draft''\<rparr>) =
     (PostCreated hello_post, [hello_post]) \<and>
   status hello_post = Published \<and>
   draft_ids [hello_post] = {} \<and>
   draft_ids (snd (update_post [hello_post] alice hello_id draft_body)) = {hello_id}"
proof -
  have d: "draft_ids (snd (update_post [hello_post] alice hello_id draft_body)) = {hello_id}"
    by code_simp
  have e: "draft_ids [hello_post] = {}" by code_simp
  show ?thesis
    using create_hello d e
      create_post_published [where sl = slugify_plain and now = 1000 and nid = hello_id
        and st = "[]" and u = alice and b = hello_body and x = "Some ''draft''"]
    by simp
qed

subsection \<open>Updating the content\<close>

lemma wordCount_long: "wordCount long_words = 201"
  using wordCount_words [of 200] by (simp add: long_words_def)

lemma long_nonempty: "long_words \<noteq> []"
  by (simp add: long_words_def)

lemma update_hello_content:
  "update_post [hello_post] alice hello_id content_body =
     (PostUpdated (hello_post\<lparr>content := long_words\<rparr>), [hello_post\<lparr>content := long_words\<rparr>])"
proof -
  have i: "isMongoId hello_id" by code_simp
  have v: "validate_update content_body"
    using long_nonempty by (simp add: validate_update_def content_body_def)
  have f: "findById [hello_post] hello_id = Some hello_post" by code_simp
  have a: "author hello_post = user_id alice" by code_simp
  have u: "apply_update content_body (role alice = ''admin'') hello_post =
      Some (hello_post\<lparr>content := long_words\<rparr>)"
    by (simp add: apply_update_def content_body_def set_field_def)
  have r: "replace_doc [hello_post] (hello_post\<lparr>content := long_words\<rparr>) =
      [hello_post\<lparr>content := long_words\<rparr>]"
    by simp
  show ?thesis
    by (simp add: update_post_def i v f a u r del: replace_doc.simps)
qed

text \<open>An update changes neither the stored \<open>readTime\<close> nor the slug, and the stored
  \<open>excerpt\<close> only when the body has one.\<close>

lemma update_post_keeps_derived:
  assumes "update_post st u i b = (PostUpdated p', st')"
  shows "\<exists>p. findById st i = Some p \<and> readTime p' = readTime p \<and> slug p' = slug p \<and>
           excerpt p' = (case b_excerpt b of None \<Rightarrow> excerpt p | Some e \<Rightarrow> Some e)"
proof -
  obtain p where p: "findById st i = Some p"
    and a: "apply_update b (role u = ''admin'') p = Some p'"
    using assms by (auto simp: update_post_def split: option.splits if_splits)
  show ?thesis
    using p apply_update_fixed [OF a] by simp
qed

text \<open>
  Claim C2. The author's update of \<open>hello_post\<close> with a content of 201 words is
  accepted and stores the new content, and the stored \<open>readTime\<close> is still 1, where
  the derivation of the create route gives 2 for the new content; the stored excerpt
  is still the one derived from the old content.
\<close>

theorem update_content_keeps_readTime:
  "update_post [hello_post] alice hello_id content_body =
     (PostUpdated (hello_post\<lparr>content := long_words\<rparr>), [hello_post\<lparr>content := long_words\<rparr>]) \<and>
   readTime (hello_post\<lparr>content := long_words\<rparr>) = 1 \<and>
   read_time long_words = 2 \<and>
   excerpt (hello_post\<lparr>content := long_words\<rparr>) = Some ''Some bold text...''"
  using update_hello_content wordCount_long
  by (simp add: read_time_def hello_post_def)

subsection \<open>Creating two posts with one title\<close>

text \<open>When the slug that the route derives from the title is the slug of a stored
  post, the request is answered with status 400 and nothing is stored.\<close>

lemma create_post_slug_exists:
  assumes "validate_create b = Some (t, c, ts, pv)" "p \<in> set st" "slug p = slugify t"
  shows "create_post slugify now new_id st u b = (SlugExists, st)"
proof -
  have "findOne_slug st (slugify t) \<noteq> None"
    using assms(2,3) by (auto simp: findOne_slug_def find_None_iff)
  then show ?thesis
    using assms(1) by (auto simp: create_post_def)
qed

text \<open>The slug that is stored is not the slug of the route: the hook replaces it by
  the slug it derives from the title, followed by the time of the request.\<close>

lemma create_post_stored_slug:
  assumes "create_post slugify now new_id st u b = (PostCreated p, st')"
  shows "slug p = title_slug (title p) @ ''-'' @ decimal now"
  using create_post_created [OF assms] by (auto simp: pre_save_new new_post_def)

text \<open>
  Claim C1. Two create requests of alice with the same body, hence the same title, at
  times 1000 and 2000: the second one is answered with status 201 as the first one is,
  and the collection then holds two posts with the title, with the slugs
  \<^verbatim>\<open>hello-world-1000\<close> and \<^verbatim>\<open>hello-world-2000\<close>.
\<close>

theorem create_same_title_twice:
  "create_post slugify_plain 1000 hello_id [] alice hello_body =
     (PostCreated hello_post, [hello_post]) \<and>
   create_post slugify_plain 2000 again_id [hello_post] alice hello_body =
     (PostCreated hello_again, [hello_post, hello_again]) \<and>
   title hello_again = title hello_post \<and>
   http_status (fst (create_post slugify_plain 2000 again_id [hello_post] alice hello_body)) = 201"
  by code_simp


subsection \<open>Listing posts: the validation of the query\<close>

lemma list_posts_validation:
  "(list_posts ts st u q = ValidationFailed) = (\<not> validate_list q)"
  by (simp add: list_posts_def Let_def)

text \<open>
  Claim C8, as the code has it. A list request whose \<open>page\<close> and \<open>limit\<close> are absent
  or valid passes the validation exactly when \<open>tags\<close> is absent or is one of the
  three strings \<^verbatim>\<open>technical\<close>, \<^verbatim>\<open>personal\<close> and \<^verbatim>\<open>technical,personal\<close>; every
  other value, the two tags in the other order among them, is answered with a
  validation failure.
\<close>

theorem list_posts_tags_validation:
  assumes "validate_list (q\<lparr>q_tags := None\<rparr>)"
  shows "(list_posts ts st u q \<noteq> ValidationFailed) =
           (q_tags q = None \<or> q_tags q = Some ''technical'' \<or> q_tags q = Some ''personal'' \<or>
            q_tags q = Some ''technical,personal'')"
proof -
  have "validate_list q = (case q_tags q of None \<Rightarrow> True | Some t \<Rightarrow> tags_param_ok t)"
    using assms by (simp add: validate_list_def)
  then show ?thesis
    by (cases "q_tags q") (auto simp: list_posts_validation tags_param_ok_def)
qed

theorem list_posts_tags_validation_witness:
  "validate_list (plain_query\<lparr>q_tags := Some ''technical,personal'', q_page := Some ''2'',
      q_limit := Some ''1''\<rparr>\<lparr>q_tags := None\<rparr>) \<and>
   list_posts no_search [hello_post, secret_post, world_post] None
     (plain_query\<lparr>q_tags := Some ''technical,personal'', q_page := Some ''2'',
        q_limit := Some ''1''\<rparr>) \<noteq> ValidationFailed"
proof -
  let ?q = "plain_query\<lparr>q_tags := Some ''technical,personal'', q_page := Some ''2'',
      q_limit := Some ''1''\<rparr>"
  have h: "validate_list (?q\<lparr>q_tags := None\<rparr>)" by code_simp
  have t: "q_tags ?q = Some ''technical,personal''" by simp
  show ?thesis
    using h t list_posts_tags_validation [OF h, of no_search "[hello_post, secret_post, world_post]" None]
    by simp
qed

text \<open>The request with \<^verbatim>\<open>tags=personal,technical\<close> is answered with a validation
  failure, status 400.\<close>

theorem list_posts_tags_counterexample:
  "list_posts no_search [] None (plain_query\<lparr>q_tags := Some ''personal,technical''\<rparr>) =
     ValidationFailed \<and>
   http_status (list_posts no_search [] None
     (plain_query\<lparr>q_tags := Some ''personal,technical''\<rparr>)) = 400"
  by code_simp

subsection \<open>Listing posts: what is returned\<close>





















end
